theory Spec2Isabelle
  imports Main
begin

section \<open>JavaScript values\<close>

text \<open>
  The values that flow through \<^verbatim>\<open>src/index.js\<close>: what \<^verbatim>\<open>JSON.parse\<close> produces, the
  value \<^verbatim>\<open>undefined\<close>, and the members every plain object inherits from
  \<^verbatim>\<open>Object.prototype\<close> (\<open>JNative\<close>, named by their key). Numbers are kept to the
  integers; nothing below computes with them.
\<close>

datatype jsval =
    JUndefined
  | JNull
  | JBool bool
  | JNum int
  | JStr string
  | JArr "jsval list"
  | JObj "(string \<times> jsval) list"
  | JNative string

type_synonym jsobj = "(string \<times> jsval) list"

text \<open>Truthiness, as \<^verbatim>\<open>if (v)\<close> and \<^verbatim>\<open>v || w\<close> test it.\<close>

fun truthy :: "jsval \<Rightarrow> bool" where
  "truthy JUndefined = False"
| "truthy JNull = False"
| "truthy (JBool b) = b"
| "truthy (JNum n) = (n \<noteq> 0)"
| "truthy (JStr s) = (s \<noteq> [])"
| "truthy (JArr xs) = True"
| "truthy (JObj kvs) = True"
| "truthy (JNative k) = True"

text \<open>
  The names a plain object (\<^verbatim>\<open>{}\<close>, or an object made by \<^verbatim>\<open>JSON.parse\<close>) inherits
  from \<^verbatim>\<open>Object.prototype\<close>. Reading one of them from an object that has no own
  property of that name gives the inherited function (or, for \<^verbatim>\<open>__proto__\<close>, the
  prototype object), never \<^verbatim>\<open>undefined\<close>.
\<close>

definition Object_prototype_keys :: "string list" where
  "Object_prototype_keys =
     [''constructor'', ''__defineGetter__'', ''__defineSetter__'', ''hasOwnProperty'',
      ''__lookupGetter__'', ''__lookupSetter__'', ''isPrototypeOf'',
      ''propertyIsEnumerable'', ''toString'', ''valueOf'', ''__proto__'',
      ''toLocaleString'']"

definition inherited :: "string \<Rightarrow> jsval" where
  "inherited k = (if k \<in> set Object_prototype_keys then JNative k else JUndefined)"

text \<open>The property read \<^verbatim>\<open>obj[k]\<close> on a plain object with the own properties \<open>kvs\<close>.\<close>

definition obj_get :: "jsobj \<Rightarrow> string \<Rightarrow> jsval" where
  "obj_get kvs k = (case map_of kvs k of Some v \<Rightarrow> v | None \<Rightarrow> inherited k)"

text \<open>
  The read \<^verbatim>\<open>v.value\<close> on a truthy value. No built-in prototype has a member called
  \<^verbatim>\<open>value\<close>, so only an own property of an object can answer it.
\<close>

fun value_of :: "jsval \<Rightarrow> jsval" where
  "value_of (JObj kvs) = obj_get kvs ''value''"
| "value_of v = JUndefined"

datatype error = TypeError | Error string

section \<open>The platform\<close>

text \<open>
  \<^verbatim>\<open>JSON.parse\<close> and \<^verbatim>\<open>JSON.stringify\<close> belong to the JavaScript engine, not to the
  repository: they are parameters of the model. \<open>JSON_parse P s = None\<close> stands for the
  \<^verbatim>\<open>SyntaxError\<close> the built-in throws.
\<close>

record platform =
  JSON_parse :: "string \<Rightarrow> jsval option"
  JSON_stringify :: "jsval \<Rightarrow> string"

section \<open>The registry and the inbound dispatcher\<close>

text \<open>
  \<^verbatim>\<open>const CALLBACK = "Fmw_Callback"\<close> and \<^verbatim>\<open>const __FETCH_RESULTS__ = {}\<close>: the registry
  is a plain object, modelled by its own properties. The only marker of a pending call is
  the string \<^verbatim>\<open>"started"\<close> stored under its identifier. Own properties come from
  assignments alone, under identifiers that \<^verbatim>\<open>v4()\<close> made; the special treatment an
  assignment to the name \<^verbatim>\<open>__proto__\<close> would get is therefore left out.
\<close>

definition CALLBACK :: string where
  "CALLBACK = ''Fmw_Callback''"

type_synonym registry = "string \<rightharpoonup> jsval"

definition started :: jsval where
  "started = JStr ''started''"

text \<open>The read \<^verbatim>\<open>__FETCH_RESULTS__[fetchId]\<close>.\<close>

definition reg_get :: "registry \<Rightarrow> string \<Rightarrow> jsval" where
  "reg_get R k = (case R k of Some v \<Rightarrow> v | None \<Rightarrow> inherited k)"

text \<open>
  \<^verbatim>\<open>try { results = JSON.parse(results); } catch (e) {}\<close>: the parsed value, or the raw
  string when parsing throws.
\<close>

definition try_parse :: "platform \<Rightarrow> string \<Rightarrow> jsval" where
  "try_parse P results = (case JSON_parse P results of Some v \<Rightarrow> v | None \<Rightarrow> JStr results)"

text \<open>
  \<^verbatim>\<open>window[CALLBACK] = (results, fetchId) => { let x = __FETCH_RESULTS__[fetchId];
  if (x === "started") { ...; __FETCH_RESULTS__[fetchId] = results; } }\<close>
\<close>

definition Fmw_Callback :: "platform \<Rightarrow> string \<Rightarrow> string \<Rightarrow> registry \<Rightarrow> registry" where
  "Fmw_Callback P results fetchId R =
     (let x = reg_get R fetchId in
      if x = started then R(fetchId \<mapsto> try_parse P results) else R)"

section \<open>Initial properties and configuration\<close>

text \<open>
  \<^verbatim>\<open>window.__initialProps__\<close> holds the object the bootstrapping code loaded, with the
  fields \<^verbatim>\<open>Config\<close> (a plain object from keys to entries \<^verbatim>\<open>{value: ...}\<close>) and
  \<^verbatim>\<open>AddonUUID\<close>. \<open>None\<close> is the state before anything was loaded, which
  \<^verbatim>\<open>getInitialProps\<close> replaces by \<^verbatim>\<open>{}\<close>; an absent \<^verbatim>\<open>Config\<close> reads as
  \<^verbatim>\<open>undefined\<close>.
\<close>

record initial_props =
  Config :: "jsobj option"
  AddonUUID :: jsval

text \<open>
  \<^verbatim>\<open>window.FileMaker\<close> is \<open>None\<close> while the host object is absent. When it is present,
  \<^verbatim>\<open>PerformScript(script, param)\<close> answers \<open>Some e\<close> if it raises \<open>e\<close> synchronously
  and \<open>None\<close> if it returns.
\<close>

type_synonym host = "string \<Rightarrow> string \<Rightarrow> error option"

datatype outcome = Resolve jsval | Reject string

text \<open>
  The closure of one promise returned by \<^verbatim>\<open>fmFetch\<close>: the captured \<^verbatim>\<open>fetchId\<close>, the
  variables \<^verbatim>\<open>result\<close> and \<^verbatim>\<open>timeOut\<close>, whether the interval \<^verbatim>\<open>int\<close> is still set,
  the delay handed to \<^verbatim>\<open>setTimeout\<close>, and the calls of \<^verbatim>\<open>resolve\<close> and \<^verbatim>\<open>reject\<close> made
  so far, oldest first.
\<close>

record poller =
  p_fetchId :: string
  p_result :: jsval
  p_timeOut :: bool
  p_int :: bool
  p_delay :: nat
  p_settles :: "outcome list"

text \<open>A promise takes the first call of \<^verbatim>\<open>resolve\<close> or \<^verbatim>\<open>reject\<close> and ignores the rest.\<close>

definition settled :: "poller \<Rightarrow> outcome option" where
  "settled p = (case p_settles p of [] \<Rightarrow> None | x # xs \<Rightarrow> Some x)"

record world =
  FETCH_RESULTS :: registry
  initialProps :: "initial_props option"
  FileMaker :: "host option"
  performed :: "(string \<times> string) list"
  pollers :: "poller list"

definition getInitialProps :: "world \<Rightarrow> initial_props" where
  "getInitialProps w =
     (case initialProps w of
        Some props \<Rightarrow> props
      | None \<Rightarrow> \<lparr>Config = None, AddonUUID = JUndefined\<rparr>)"

definition getAddonUUID :: "world \<Rightarrow> jsval" where
  "getAddonUUID w = AddonUUID (getInitialProps w)"

definition getConfigs :: "world \<Rightarrow> jsobj option" where
  "getConfigs w = Config (getInitialProps w)"

text \<open>
  \<^verbatim>\<open>if (config[key]) return config[key].value; throw new Error(...)\<close>. Reading a
  property of \<^verbatim>\<open>undefined\<close> throws a \<^verbatim>\<open>TypeError\<close>.
\<close>

definition getConfig :: "world \<Rightarrow> string \<Rightarrow> error + jsval" where
  "getConfig w key =
     (case getConfigs w of
        None \<Rightarrow> Inl TypeError
      | Some config \<Rightarrow>
          if truthy (obj_get config key) then Inr (value_of (obj_get config key))
          else Inl (Error (''there is no config with the key: '' @ key)))"

section \<open>The outbound call\<close>

text \<open>
  The \<^verbatim>\<open>options\<close> argument with the two fields the function reads, typed as its
  documentation types them (\<^verbatim>\<open>timeOut\<close> a number of milliseconds, \<^verbatim>\<open>eventType\<close> a
  string); \<open>None\<close> is a field the caller left out.
\<close>

record options =
  opt_timeOut :: "nat option"
  opt_eventType :: "string option"

text \<open>The default of the parameter: \<^verbatim>\<open>options = { timeOut: 30000 }\<close>.\<close>

definition default_options :: options where
  "default_options = \<lparr>opt_timeOut = Some 30000, opt_eventType = None\<rparr>"

definition opt_str :: "string option \<Rightarrow> jsval" where
  "opt_str x = (case x of None \<Rightarrow> JUndefined | Some s \<Rightarrow> JStr s)"

definition opt_obj :: "jsobj option \<Rightarrow> jsval" where
  "opt_obj x = (case x of None \<Rightarrow> JUndefined | Some kvs \<Rightarrow> JObj kvs)"

text \<open>
  The delay \<^verbatim>\<open>setTimeout(f, delay)\<close> waits, in milliseconds. The browser converts the
  argument to a signed 32-bit integer: \<^verbatim>\<open>undefined\<close> becomes 0, a number is taken modulo
  \<open>2\<^sup>3\<^sup>2\<close> and read in two's complement, and a negative delay counts as 0. So a
  \<^verbatim>\<open>timeOut\<close> from \<open>2\<^sup>3\<^sup>1 = 2147483648\<close> on is not waited for: up to
  \<open>2\<^sup>3\<^sup>2\<close> it gives the delay 0, beyond that what is left modulo \<open>2\<^sup>3\<^sup>2\<close>.
\<close>

definition timer_delay :: "nat option \<Rightarrow> nat" where
  "timer_delay t =
     (case t of
        None \<Rightarrow> 0
      | Some ms \<Rightarrow> if ms mod 4294967296 < 2147483648 then ms mod 4294967296 else 0)"

text \<open>
  The object \<^verbatim>\<open>param\<close>: \<^verbatim>\<open>{ Data: data, Meta: { Config, AddonUUID, FetchId: fetchId,
  Callback: CALLBACK } }\<close>, and \<^verbatim>\<open>param.Meta.EventType = options.eventType\<close> under
  \<^verbatim>\<open>if (options.eventType)\<close>.
\<close>

definition Meta :: "world \<Rightarrow> options \<Rightarrow> string \<Rightarrow> jsobj" where
  "Meta w opts fetchId =
     [(''Config'', opt_obj (getConfigs w)),
      (''AddonUUID'', getAddonUUID w),
      (''FetchId'', JStr fetchId),
      (''Callback'', JStr CALLBACK)]
     @ (if truthy (opt_str (opt_eventType opts))
        then [(''EventType'', opt_str (opt_eventType opts))] else [])"

definition param :: "world \<Rightarrow> jsval \<Rightarrow> options \<Rightarrow> string \<Rightarrow> jsval" where
  "param w data opts fetchId = JObj [(''Data'', data), (''Meta'', JObj (Meta w opts fetchId))]"

text \<open>The state of the closure when the promise's executor has run.\<close>

definition new_poller :: "registry \<Rightarrow> options \<Rightarrow> string \<Rightarrow> poller" where
  "new_poller R opts fetchId =
     \<lparr>p_fetchId = fetchId, p_result = reg_get R fetchId, p_timeOut = False, p_int = True,
      p_delay = timer_delay (opt_timeOut opts), p_settles = []\<rparr>"

text \<open>
  The parameters with their defaults, \<^verbatim>\<open>data = {}\<close> and \<^verbatim>\<open>options = { timeOut: 30000 }\<close>:
  a default stands in when the argument is \<^verbatim>\<open>undefined\<close>, that is, left out.
\<close>

definition data_arg :: "jsval \<Rightarrow> jsval" where
  "data_arg data = (if data = JUndefined then JObj [] else data)"

definition options_arg :: "options option \<Rightarrow> options" where
  "options_arg opts = (case opts of None \<Rightarrow> default_options | Some given \<Rightarrow> given)"

text \<open>
  The statement \<^verbatim>\<open>window.FileMaker.PerformScript(script, arg)\<close>: what it raises, if
  anything, and the world with the invocation recorded. Without \<^verbatim>\<open>window.FileMaker\<close>
  the member read throws a \<^verbatim>\<open>TypeError\<close> and nothing is invoked.
\<close>

definition PerformScript :: "world \<Rightarrow> string \<Rightarrow> string \<Rightarrow> error option \<times> world" where
  "PerformScript w script arg =
     (case FileMaker w of
        None \<Rightarrow> (Some TypeError, w)
      | Some perform \<Rightarrow> (perform script arg, w\<lparr>performed := performed w @ [(script, arg)]\<rparr>))"

text \<open>
  \<^verbatim>\<open>fmFetch(script, data = {}, options = { timeOut: 30000 })\<close>. The argument \<open>fetchId\<close> is
  the identifier \<^verbatim>\<open>v4()\<close> returned. The result is the exception that escaped, or the
  index of the new promise's closure among \<open>pollers\<close>; the world is returned as the
  call left it in either case.
\<close>

definition fmFetch ::
  "platform \<Rightarrow> string \<Rightarrow> jsval \<Rightarrow> options option \<Rightarrow> string \<Rightarrow> world \<Rightarrow> (error + nat) \<times> world" where
  "fmFetch P script data opts fetchId w =
     (let w1 = w\<lparr>FETCH_RESULTS := (FETCH_RESULTS w)(fetchId \<mapsto> started)\<rparr>;
          arg = JSON_stringify P (param w1 (data_arg data) (options_arg opts) fetchId)
      in case PerformScript w1 script arg of
           (Some e, w2) \<Rightarrow> (Inl e, w2)
         | (None, w2) \<Rightarrow>
             (Inr (length (pollers w2)),
              w2\<lparr>pollers := pollers w2 @ [new_poller (FETCH_RESULTS w2) (options_arg opts) fetchId]\<rparr>))"

section \<open>The poller\<close>

text \<open>
  The callback of \<^verbatim>\<open>setInterval(..., 100)\<close>, statement by statement: the read of the
  registry, then \<^verbatim>\<open>if (result !== "started") {...}\<close>, then \<^verbatim>\<open>if (timeOut) {...}\<close>. The
  two tests are not alternatives: both bodies run when both hold.
\<close>

definition read_result :: "poller \<times> registry \<Rightarrow> poller \<times> registry" where
  "read_result pr = (case pr of (p, R) \<Rightarrow> (p\<lparr>p_result := reg_get R (p_fetchId p)\<rparr>, R))"

definition on_result :: "poller \<times> registry \<Rightarrow> poller \<times> registry" where
  "on_result pr =
     (case pr of (p, R) \<Rightarrow>
        if p_result p \<noteq> started
        then (p\<lparr>p_int := False, p_settles := p_settles p @ [Resolve (p_result p)]\<rparr>,
              R(p_fetchId p := None))
        else (p, R))"

definition on_timeOut :: "poller \<times> registry \<Rightarrow> poller \<times> registry" where
  "on_timeOut pr =
     (case pr of (p, R) \<Rightarrow>
        if p_timeOut p
        then (p\<lparr>p_int := False, p_settles := p_settles p @ [Reject ''timeout'']\<rparr>,
              R(p_fetchId p := None))
        else (p, R))"

definition interval_callback :: "poller \<Rightarrow> registry \<Rightarrow> poller \<times> registry" where
  "interval_callback p R = on_timeOut (on_result (read_result (p, R)))"

text \<open>The callback of \<^verbatim>\<open>setTimeout\<close>: \<^verbatim>\<open>timeOut = true\<close>.\<close>

definition timeout_callback :: "poller \<Rightarrow> poller" where
  "timeout_callback p = p\<lparr>p_timeOut := True\<rparr>"

section \<open>Events\<close>

text \<open>
  Everything that runs after module load is one of four events: the interval of closure
  \<open>k\<close> fires, its timeout fires, the host calls \<^verbatim>\<open>Fmw_Callback(results, fetchId)\<close>, or
  the application calls \<^verbatim>\<open>fmFetch\<close> (an exception it raises goes to the caller and is
  not part of the state). A cleared interval does not fire again.
\<close>

datatype event =
    Tick nat
  | Expire nat
  | Callback string string
  | Fetch string jsval "options option" string

fun step :: "platform \<Rightarrow> world \<Rightarrow> event \<Rightarrow> world" where
  "step P w (Tick k) =
     (if k < length (pollers w) \<and> p_int (pollers w ! k)
      then (case interval_callback (pollers w ! k) (FETCH_RESULTS w) of
              (p, R) \<Rightarrow> w\<lparr>FETCH_RESULTS := R, pollers := (pollers w)[k := p]\<rparr>)
      else w)"
| "step P w (Expire k) =
     (if k < length (pollers w)
      then w\<lparr>pollers := (pollers w)[k := timeout_callback (pollers w ! k)]\<rparr>
      else w)"
| "step P w (Callback results fetchId) =
     w\<lparr>FETCH_RESULTS := Fmw_Callback P results fetchId (FETCH_RESULTS w)\<rparr>"
| "step P w (Fetch script data opts fetchId) = snd (fmFetch P script data opts fetchId w)"

definition run :: "platform \<Rightarrow> world \<Rightarrow> event list \<Rightarrow> world" where
  "run P w es = foldl (step P) w es"

section \<open>Timers\<close>

text \<open>
  Time is counted in milliseconds from the moment \<^verbatim>\<open>fmFetch\<close> returned. The interval
  of closure \<open>k\<close> fires at 100, 200, 300, ...; its timeout fires once, at the delay
  \<open>d\<close>. When both are due in the same millisecond the engine decides which runs first:
  \<open>expire_first\<close> is that choice.
\<close>

definition timers_at :: "bool \<Rightarrow> nat \<Rightarrow> nat \<Rightarrow> nat \<Rightarrow> event list" where
  "timers_at expire_first k d t =
     (let tick = (if 0 < t \<and> t mod 100 = 0 then [Tick k] else []);
          expire = (if t = d then [Expire k] else [])
      in if expire_first then expire @ tick else tick @ expire)"

text \<open>
  \<open>clock P expire_first k others w t\<close> is the world at the end of millisecond \<open>t\<close>,
  when \<open>w\<close> is the world in which \<^verbatim>\<open>fmFetch\<close> has just returned closure \<open>k\<close>.
  \<open>others t\<close> are the events of millisecond \<open>t\<close> that do not come from the two timers
  of \<open>k\<close>: host callbacks, the timers of other closures, further calls.
\<close>

fun clock :: "platform \<Rightarrow> bool \<Rightarrow> nat \<Rightarrow> (nat \<Rightarrow> event list) \<Rightarrow> world \<Rightarrow> nat \<Rightarrow> world" where
  "clock P expire_first k others w 0 =
     run P w (others 0 @ timers_at expire_first k (p_delay (pollers w ! k)) 0)"
| "clock P expire_first k others w (Suc t) =
     run P (clock P expire_first k others w t)
       (others (Suc t) @ timers_at expire_first k (p_delay (pollers w ! k)) (Suc t))"

text \<open>The first millisecond at which the interval fires with the timeout already fired.\<close>

definition first_tick_after :: "bool \<Rightarrow> nat \<Rightarrow> nat" where
  "first_tick_after expire_first d =
     (if expire_first \<and> 0 < d \<and> d mod 100 = 0 then d else 100 * (d div 100 + 1))"

section \<open>Events that leave a call alone\<close>

text \<open>
  \<open>apart k fid e\<close>: the event \<open>e\<close> is neither a timer of closure \<open>k\<close> nor a host
  callback for the identifier \<open>fid\<close> nor a call that \<^verbatim>\<open>v4()\<close> gave the identifier
  \<open>fid\<close> again. \<open>reissues fid e\<close> is the last of the three alone.
\<close>

fun apart :: "nat \<Rightarrow> string \<Rightarrow> event \<Rightarrow> bool" where
  "apart k fid (Tick j) = (j \<noteq> k)"
| "apart k fid (Expire j) = (j \<noteq> k)"
| "apart k fid (Callback results f) = (f \<noteq> fid)"
| "apart k fid (Fetch script data opts f) = (f \<noteq> fid)"

fun reissues :: "string \<Rightarrow> event \<Rightarrow> bool" where
  "reissues fid (Fetch script data opts f) = (f = fid)"
| "reissues fid e = False"

text \<open>
  \<open>quiet P k fid e\<close>: as \<open>apart\<close>, but the host may call back for \<open>fid\<close> with a result
  that the dispatcher turns into the string \<^verbatim>\<open>"started"\<close>.
\<close>

fun quiet :: "platform \<Rightarrow> nat \<Rightarrow> string \<Rightarrow> event \<Rightarrow> bool" where
  "quiet P k fid (Callback results f) = (f \<noteq> fid \<or> try_parse P results = started)"
| "quiet P k fid e = apart k fid e"

text \<open>No closure other than \<open>k\<close> polls the identifier \<open>fid\<close>.\<close>

definition others_apart :: "nat \<Rightarrow> string \<Rightarrow> world \<Rightarrow> bool" where
  "others_apart k fid w =
     (\<forall>j < length (pollers w). j \<noteq> k \<longrightarrow> p_fetchId (pollers w ! j) \<noteq> fid)"

text \<open>The call behind closure \<open>k\<close> is outstanding under the identifier \<open>fid\<close>.\<close>

definition pending :: "nat \<Rightarrow> string \<Rightarrow> world \<Rightarrow> bool" where
  "pending k fid w =
     (k < length (pollers w) \<and> p_fetchId (pollers w ! k) = fid \<and> p_int (pollers w ! k)
      \<and> p_settles (pollers w ! k) = [] \<and> FETCH_RESULTS w fid = Some started)"

text \<open>No closure polls the identifier \<open>fid\<close>: what \<^verbatim>\<open>v4()\<close> promises of a new one.\<close>

definition fresh :: "string \<Rightarrow> world \<Rightarrow> bool" where
  "fresh fid w = (fid \<notin> set (map p_fetchId (pollers w)))"

text \<open>
  The state of closure \<open>k\<close> when the milliseconds before \<open>n\<close> have passed and no result
  has reached it: outstanding up to the first tick that sees the timeout fired, rejected
  and removed from the registry after it.
\<close>

definition lone :: "bool \<Rightarrow> nat \<Rightarrow> string \<Rightarrow> nat \<Rightarrow> nat \<Rightarrow> world \<Rightarrow> bool" where
  "lone expire_first k fid d n w =
     (k < length (pollers w) \<and> others_apart k fid w \<and> p_fetchId (pollers w ! k) = fid
      \<and> (if n \<le> first_tick_after expire_first d
          then p_int (pollers w ! k) \<and> p_settles (pollers w ! k) = []
               \<and> FETCH_RESULTS w fid = Some started \<and> (p_timeOut (pollers w ! k) \<longleftrightarrow> d < n)
          else \<not> p_int (pollers w ! k) \<and> p_settles (pollers w ! k) = [Reject ''timeout'']
               \<and> FETCH_RESULTS w fid = None))"

text \<open>
  The registry holds the identifier of closure \<open>k\<close> exactly while the closure has
  called neither \<^verbatim>\<open>resolve\<close> nor \<^verbatim>\<open>reject\<close>, and the interval is set for as long.
\<close>

definition tracked :: "nat \<Rightarrow> string \<Rightarrow> world \<Rightarrow> bool" where
  "tracked k fid w =
     (k < length (pollers w) \<and> others_apart k fid w \<and> p_fetchId (pollers w ! k) = fid
      \<and> (if p_settles (pollers w ! k) = []
          then p_int (pollers w ! k) \<and> fid \<in> dom (FETCH_RESULTS w)
          else \<not> p_int (pollers w ! k) \<and> fid \<notin> dom (FETCH_RESULTS w)))"


section \<open>An engine and a page for the examples\<close>

text \<open>
  The examples need a concrete engine. Its \<^verbatim>\<open>JSON.parse\<close> reads the scalar texts only:
  \<^verbatim>\<open>null\<close>, \<^verbatim>\<open>true\<close>, \<^verbatim>\<open>false\<close>, unsigned decimal integers, and strings without
  escapes; every other text is refused. The examples use it on texts where the built-in
  does the same. Its \<^verbatim>\<open>JSON.stringify\<close> drops the properties that have no JSON text and
  does not escape.
\<close>

definition is_digit :: "char \<Rightarrow> bool" where
  "is_digit c = (48 \<le> (of_char c :: nat) \<and> (of_char c :: nat) \<le> 57)"

definition digits_value :: "string \<Rightarrow> nat" where
  "digits_value s = foldl (\<lambda>n c. 10 * n + ((of_char c :: nat) - 48)) 0 s"

definition plain_char :: "char \<Rightarrow> bool" where
  "plain_char c = (32 \<le> (of_char c :: nat) \<and> c \<noteq> CHR 0x22 \<and> c \<noteq> CHR 0x5C)"

definition JSON_parse_scalar :: "string \<Rightarrow> jsval option" where
  "JSON_parse_scalar s =
     (if s = ''null'' then Some JNull
      else if s = ''true'' then Some (JBool True)
      else if s = ''false'' then Some (JBool False)
      else if 2 \<le> length s \<and> hd s = CHR 0x22 \<and> last s = CHR 0x22
              \<and> list_all plain_char (butlast (tl s))
           then Some (JStr (butlast (tl s)))
      else if s \<noteq> [] \<and> list_all is_digit s \<and> (hd s = CHR ''0'' \<longrightarrow> length s = 1)
           then Some (JNum (int (digits_value s)))
      else None)"

fun commas :: "string list \<Rightarrow> string" where
  "commas [] = []"
| "commas [x] = x"
| "commas (x # y # ys) = x @ '','' @ commas (y # ys)"

fun decimal :: "nat \<Rightarrow> nat \<Rightarrow> string" where
  "decimal 0 n = ''0''"
| "decimal (Suc fuel) n =
     (if n < 10 then [char_of (48 + n)] else decimal fuel (n div 10) @ [char_of (48 + n mod 10)])"

fun stringify :: "jsval \<Rightarrow> string option" where
  "stringify JUndefined = None"
| "stringify (JNative k) = None"
| "stringify JNull = Some ''null''"
| "stringify (JBool b) = Some (if b then ''true'' else ''false'')"
| "stringify (JNum n) =
     Some ((if n < 0 then ''-'' else []) @ decimal (nat \<bar>n\<bar>) (nat \<bar>n\<bar>))"
| "stringify (JStr s) = Some ([CHR 0x22] @ s @ [CHR 0x22])"
| "stringify (JArr xs) =
     Some (''['' @ commas (map (\<lambda>x. case stringify x of None \<Rightarrow> ''null'' | Some s \<Rightarrow> s) xs)
           @ '']'')"
| "stringify (JObj kvs) =
     Some (''{''
           @ commas (concat (map (\<lambda>(k, v). case stringify v of
                                              None \<Rightarrow> []
                                            | Some s \<Rightarrow> [[CHR 0x22] @ k @ [CHR 0x22] @ '':'' @ s]) kvs))
           @ ''}'')"

definition engine :: platform where
  "engine =
     \<lparr>JSON_parse = JSON_parse_scalar,
      JSON_stringify = (\<lambda>v. case stringify v of None \<Rightarrow> ''undefined'' | Some s \<Rightarrow> s)\<rparr>"

text \<open>
  A page whose properties are loaded and whose host is present and never raises; the same
  page without the host; and two identifiers.
\<close>

definition props0 :: initial_props where
  "props0 =
     \<lparr>Config = Some [(''Table'', JObj [(''value'', JStr ''Invoices'')]),
                     (''Field'', JObj [(''value'', JStr ''Invoices::Total'')])],
      AddonUUID = JStr ''A1''\<rparr>"

definition page0 :: world where
  "page0 =
     \<lparr>FETCH_RESULTS = Map.empty, initialProps = Some props0,
      FileMaker = Some (\<lambda>script arg. None), performed = [], pollers = []\<rparr>"


definition id1 :: string where
  "id1 = ''1b9d6bcd-bbfd-4b2d-9b5d-ab8dfbbd4bed''"

definition id2 :: string where
  "id2 = ''9c858901-8a57-4791-81fe-4c455b099bc9''"

text \<open>
  The page after \<^verbatim>\<open>fmFetch("GetInvoices", undefined, { timeOut: 200 })\<close>, to which
  \<^verbatim>\<open>v4()\<close> gave the first identifier; the registry that holds that identifier as
  outstanding and nothing else; and a host that calls back once, 50 ms later, with the
  given result for the given identifier.
\<close>

definition opts200 :: options where
  "opts200 = \<lparr>opt_timeOut = Some 200, opt_eventType = None\<rparr>"

definition issued :: world where
  "issued = snd (fmFetch engine ''GetInvoices'' JUndefined (Some opts200) id1 page0)"

definition reg1 :: registry where
  "reg1 = Map.empty(id1 \<mapsto> started)"

definition calls_back :: "string \<Rightarrow> string \<Rightarrow> nat \<Rightarrow> event list" where
  "calls_back results fid t = (if t = 50 then [Callback results fid] else [])"

text \<open>Nothing else happens on the page.\<close>

definition silence :: "nat \<Rightarrow> event list" where
  "silence t = []"

text \<open>
  Options that name an event type and no timeout, and the page after
  \<^verbatim>\<open>fmFetch("GetInvoices", undefined, { eventType: "refresh" })\<close>.
\<close>

definition event_only :: options where
  "event_only = \<lparr>opt_timeOut = None, opt_eventType = Some ''refresh''\<rparr>"

definition issued_event_only :: world where
  "issued_event_only = snd (fmFetch engine ''GetInvoices'' JUndefined (Some event_only) id1 page0)"

text \<open>
  Options that ask for a timeout of \<open>2\<^sup>3\<^sup>1\<close> ms, and the page after
  \<^verbatim>\<open>fmFetch("GetInvoices", undefined, { timeOut: 2147483648 })\<close>.
\<close>

definition opts_huge :: options where
  "opts_huge = \<lparr>opt_timeOut = Some 2147483648, opt_eventType = None\<rparr>"

definition issued_huge :: world where
  "issued_huge = snd (fmFetch engine ''GetInvoices'' JUndefined (Some opts_huge) id1 page0)"

text \<open>
  Options with an event type, and options whose event type is the empty string.
\<close>

definition with_event :: options where
  "with_event = \<lparr>opt_timeOut = Some 200, opt_eventType = Some ''refresh''\<rparr>"

definition empty_event :: options where
  "empty_event = \<lparr>opt_timeOut = Some 200, opt_eventType = Some []\<rparr>"

section \<open>Basic facts\<close>

lemma inherited_not_started: "inherited k \<noteq> started"
  by (simp add: inherited_def started_def)

lemma reg_get_started_iff: "reg_get R k = started \<longleftrightarrow> R k = Some started"
  by (cases "R k") (simp_all add: reg_get_def inherited_not_started)

lemma reg_get_Some: "R k = Some v \<Longrightarrow> reg_get R k = v"
  by (simp add: reg_get_def)

lemma Fmw_Callback_pending:
  "R fid = Some started \<Longrightarrow> Fmw_Callback P r fid R = R(fid \<mapsto> try_parse P r)"
  by (simp add: Fmw_Callback_def reg_get_started_iff)

lemma Fmw_Callback_not_pending:
  "R fid \<noteq> Some started \<Longrightarrow> Fmw_Callback P r fid R = R"
  by (simp add: Fmw_Callback_def reg_get_started_iff)

lemma Fmw_Callback_other: "f \<noteq> fid \<Longrightarrow> Fmw_Callback P r f R fid = R fid"
  by (simp add: Fmw_Callback_def)

lemma Fmw_Callback_dom: "dom (Fmw_Callback P r f R) = dom R"
  by (auto simp: Fmw_Callback_def reg_get_started_iff)

lemma try_parse_started_iff:
  "try_parse P r = started \<longleftrightarrow>
     JSON_parse P r = Some started \<or> (JSON_parse P r = None \<and> r = ''started'')"
  by (cases "JSON_parse P r") (simp_all add: try_parse_def started_def)

lemma interval_callback_cases:
  "interval_callback p R =
     (if R (p_fetchId p) = Some started
      then (if p_timeOut p
            then (p\<lparr>p_result := started, p_int := False,
                    p_settles := p_settles p @ [Reject ''timeout'']\<rparr>, R(p_fetchId p := None))
            else (p\<lparr>p_result := started\<rparr>, R))
      else (if p_timeOut p
            then (p\<lparr>p_result := reg_get R (p_fetchId p), p_int := False,
                    p_settles := p_settles p @ [Resolve (reg_get R (p_fetchId p)), Reject ''timeout'']\<rparr>,
                  R(p_fetchId p := None))
            else (p\<lparr>p_result := reg_get R (p_fetchId p), p_int := False,
                    p_settles := p_settles p @ [Resolve (reg_get R (p_fetchId p))]\<rparr>,
                  R(p_fetchId p := None))))"
  by (simp add: interval_callback_def on_timeOut_def on_result_def read_result_def
      reg_get_started_iff)

lemma interval_callback_fetchId: "p_fetchId (fst (interval_callback p R)) = p_fetchId p"
  by (simp add: interval_callback_cases)

lemma interval_callback_other:
  "f \<noteq> p_fetchId p \<Longrightarrow> snd (interval_callback p R) f = R f"
  by (simp add: interval_callback_cases)


lemma Fmw_Callback_sentinel: "try_parse P r = started \<Longrightarrow> Fmw_Callback P r fid R = R"
  by (auto simp: Fmw_Callback_def reg_get_started_iff)

lemma step_Tick:
  "step P w (Tick k) =
     (if k < length (pollers w) \<and> p_int (pollers w ! k)
      then w\<lparr>FETCH_RESULTS := snd (interval_callback (pollers w ! k) (FETCH_RESULTS w)),
             pollers := (pollers w)[k := fst (interval_callback (pollers w ! k) (FETCH_RESULTS w))]\<rparr>
      else w)"
  by (simp add: case_prod_beta)

lemma run_Nil: "run P w [] = w"
  by (simp add: run_def)

lemma run_Cons: "run P w (e # es) = run P (step P w e) es"
  by (simp add: run_def)

lemma run_append: "run P w (es @ fs) = run P (run P w es) fs"
  by (simp add: run_def)

lemma fmFetch_registry:
  "FETCH_RESULTS (snd (fmFetch P script data opts fid w)) = (FETCH_RESULTS w)(fid \<mapsto> started)"
  by (simp add: fmFetch_def PerformScript_def Let_def split: option.splits)

lemma fmFetch_Inr:
  assumes "fmFetch P script data opts fid w = (Inr k, w')"
  shows "k = length (pollers w)"
    and "pollers w' = pollers w @ [new_poller (FETCH_RESULTS w') (options_arg opts) fid]"
    and "FETCH_RESULTS w' = (FETCH_RESULTS w)(fid \<mapsto> started)"
  using assms by (auto simp: fmFetch_def PerformScript_def Let_def split: option.splits)

lemma fmFetch_Inl:
  assumes "fmFetch P script data opts fid w = (Inl e, w')"
  shows "pollers w' = pollers w"
    and "FETCH_RESULTS w' = (FETCH_RESULTS w)(fid \<mapsto> started)"
  using assms by (auto simp: fmFetch_def PerformScript_def Let_def split: option.splits)

lemma fmFetch_pollers:
  "\<exists>ps. pollers (snd (fmFetch P script data opts fid w)) = pollers w @ ps
        \<and> (\<forall>p \<in> set ps. p_fetchId p = fid)"
  by (simp add: fmFetch_def PerformScript_def Let_def new_poller_def split: option.splits)

lemma new_poller_simps:
  "p_fetchId (new_poller R opts fid) = fid"
  "p_timeOut (new_poller R opts fid) = False"
  "p_int (new_poller R opts fid) = True"
  "p_settles (new_poller R opts fid) = []"
  "p_delay (new_poller R opts fid) = timer_delay (opt_timeOut opts)"
  by (simp_all add: new_poller_def)

lemma step_frame:
  assumes k: "k < length (pollers w)" and oa: "others_apart k fid w" and q: "quiet P k fid e"
  shows "pollers (step P w e) ! k = pollers w ! k"
    and "FETCH_RESULTS (step P w e) fid = FETCH_RESULTS w fid"
    and "others_apart k fid (step P w e)"
    and "k < length (pollers (step P w e))"
proof -
  have "pollers (step P w e) ! k = pollers w ! k
      \<and> FETCH_RESULTS (step P w e) fid = FETCH_RESULTS w fid
      \<and> others_apart k fid (step P w e) \<and> k < length (pollers (step P w e))"
  proof (cases e)
    case (Tick j)
    with q have jk: "j \<noteq> k" by simp
    show ?thesis
    proof (cases "j < length (pollers w) \<and> p_int (pollers w ! j)")
      case True
      with oa jk have ne: "fid \<noteq> p_fetchId (pollers w ! j)"
        by (auto simp: others_apart_def)
      from True jk k oa ne show ?thesis
        unfolding Tick step_Tick
        by (auto simp: others_apart_def nth_list_update interval_callback_other
            interval_callback_fetchId)
    next
      case False
      with k oa show ?thesis unfolding Tick step_Tick by auto
    qed
  next
    case (Expire j)
    with q have jk: "j \<noteq> k" by simp
    with k oa show ?thesis
      unfolding Expire
      by (auto simp: others_apart_def nth_list_update timeout_callback_def)
  next
    case (Callback r f)
    with q have "f \<noteq> fid \<or> try_parse P r = started" by simp
    with k oa show ?thesis
      unfolding Callback
      by (auto simp: others_apart_def Fmw_Callback_other Fmw_Callback_sentinel)
  next
    case (Fetch s d opts f)
    with q have ne: "f \<noteq> fid" by simp
    obtain ps where ps: "pollers (snd (fmFetch P s d opts f w)) = pollers w @ ps"
      "\<forall>p \<in> set ps. p_fetchId p = f"
      using fmFetch_pollers by blast
    have "others_apart k fid (step P w e)"
      unfolding others_apart_def
    proof (intro allI impI)
      fix j assume j: "j < length (pollers (step P w e))" and "j \<noteq> k"
      show "p_fetchId (pollers (step P w e) ! j) \<noteq> fid"
      proof (cases "j < length (pollers w)")
        case True
        with oa \<open>j \<noteq> k\<close> show ?thesis
          by (simp add: Fetch ps nth_append others_apart_def)
      next
        case False
        with j have "pollers (step P w e) ! j \<in> set ps"
          by (simp add: Fetch ps nth_append)
        with ps(2) ne show ?thesis by auto
      qed
    qed
    with k ne show ?thesis
      by (simp add: Fetch ps nth_append fmFetch_registry)
  qed
  then show "pollers (step P w e) ! k = pollers w ! k"
    and "FETCH_RESULTS (step P w e) fid = FETCH_RESULTS w fid"
    and "others_apart k fid (step P w e)"
    and "k < length (pollers (step P w e))" by simp_all
qed

lemma run_frame:
  assumes "k < length (pollers w)" and "others_apart k fid w"
    and "\<forall>e \<in> set es. quiet P k fid e"
  shows "pollers (run P w es) ! k = pollers w ! k
       \<and> FETCH_RESULTS (run P w es) fid = FETCH_RESULTS w fid
       \<and> others_apart k fid (run P w es) \<and> k < length (pollers (run P w es))"
  using assms
proof (induction es arbitrary: w)
  case Nil
  then show ?case by (simp add: run_Nil)
next
  case (Cons e es)
  from Cons.prems have q: "quiet P k fid e" and qs: "\<forall>e \<in> set es. quiet P k fid e"
    by simp_all
  note f = step_frame[OF Cons.prems(1) Cons.prems(2) q]
  from Cons.IH[OF f(4) f(3) qs] f(1) f(2) show ?case
    by (simp add: run_Cons)
qed

lemma apart_quiet: "apart k fid e \<Longrightarrow> quiet P k fid e"
  by (cases e) simp_all


lemma next_hundred_gt: "(d::nat) < 100 * (d div 100 + 1)"
proof -
  define q r where "q = d div 100" and "r = d mod 100"
  have "d = 100 * q + r" and "r < 100" by (simp_all add: q_def r_def)
  then have "d < 100 * (q + 1)" by simp
  then show ?thesis by (simp only: q_def)
qed

lemma next_hundred_le: "100 * ((d::nat) div 100 + 1) \<le> d + 100"
proof -
  define q r where "q = d div 100" and "r = d mod 100"
  have "d = 100 * q + r" by (simp add: q_def r_def)
  then have "100 * (q + 1) \<le> d + 100" by simp
  then show ?thesis by (simp only: q_def)
qed

lemma next_hundred_least:
  assumes "(d::nat) < t" "t mod 100 = 0"
  shows "100 * (d div 100 + 1) \<le> t"
proof -
  from assms(2) have t: "t = 100 * (t div 100)" by auto
  with assms(1) have "d < 100 * (t div 100)" by simp
  then have "d div 100 < t div 100"
    by (simp add: less_mult_imp_div_less mult.commute)
  then have "100 * (d div 100 + 1) \<le> 100 * (t div 100)" by simp
  with t show ?thesis by simp
qed

lemma first_tick_after_pos: "0 < first_tick_after ef d"
  by (simp add: first_tick_after_def)

lemma first_tick_after_mod: "first_tick_after ef d mod 100 = 0"
  by (simp add: first_tick_after_def)

lemma first_tick_after_ge: "d \<le> first_tick_after ef d"
  using next_hundred_gt[of d] by (simp add: first_tick_after_def)

lemma first_tick_after_le: "first_tick_after ef d \<le> d + 100"
  using next_hundred_le[of d] by (simp add: first_tick_after_def)

lemma first_tick_after_least:
  assumes "0 < t" "t mod 100 = 0" "d < t \<or> ef \<and> d = t"
  shows "first_tick_after ef d \<le> t"
proof (cases "d < t")
  case True
  from next_hundred_least[OF True assms(2)] True show ?thesis
    by (simp add: first_tick_after_def)
next
  case False
  with assms show ?thesis by (simp add: first_tick_after_def)
qed

lemma first_tick_after_fired:
  assumes "t = first_tick_after ef d"
  shows "d < t \<or> ef \<and> d = t"
  using assms next_hundred_gt[of d] by (simp add: first_tick_after_def split: if_splits)

lemma own_timers_unsettled:
  fixes P ef d t
  assumes k: "k < length (pollers w)"
    and p: "p_fetchId (pollers w ! k) = fid" "p_int (pollers w ! k)"
           "p_settles (pollers w ! k) = []" "FETCH_RESULTS w fid = Some started"
    and oa: "others_apart k fid w"
  defines "w' \<equiv> run P w (timers_at ef k d t)"
  defines "fired \<equiv> (0 < t \<and> t mod 100 = 0) \<and> (p_timeOut (pollers w ! k) \<or> ef \<and> t = d)"
  shows "k < length (pollers w') \<and> others_apart k fid w'
       \<and> p_fetchId (pollers w' ! k) = fid \<and> p_delay (pollers w' ! k) = p_delay (pollers w ! k)
       \<and> (p_timeOut (pollers w' ! k) \<longleftrightarrow> p_timeOut (pollers w ! k) \<or> t = d)
       \<and> (if fired
          then \<not> p_int (pollers w' ! k) \<and> p_settles (pollers w' ! k) = [Reject ''timeout'']
               \<and> FETCH_RESULTS w' fid = None
          else p_int (pollers w' ! k) \<and> p_settles (pollers w' ! k) = []
               \<and> FETCH_RESULTS w' fid = Some started)"
  using k p oa unfolding w'_def fired_def timers_at_def Let_def
  by (auto simp: run_Cons run_Nil step_Tick interval_callback_cases timeout_callback_def
      others_apart_def nth_list_update)

lemma own_timers_settled:
  fixes P ef d t
  assumes k: "k < length (pollers w)" and p: "\<not> p_int (pollers w ! k)"
    and oa: "others_apart k fid w"
  defines "w' \<equiv> run P w (timers_at ef k d t)"
  shows "k < length (pollers w') \<and> others_apart k fid w'
       \<and> p_fetchId (pollers w' ! k) = p_fetchId (pollers w ! k)
       \<and> p_delay (pollers w' ! k) = p_delay (pollers w ! k)
       \<and> p_int (pollers w' ! k) = p_int (pollers w ! k)
       \<and> p_settles (pollers w' ! k) = p_settles (pollers w ! k)
       \<and> FETCH_RESULTS w' = FETCH_RESULTS w"
  using k p oa unfolding w'_def timers_at_def Let_def
  by (auto simp: run_Cons run_Nil step_Tick timeout_callback_def others_apart_def nth_list_update)


lemma lone_millisecond:
  assumes inv: "lone ef k fid d n w" and q: "\<forall>e \<in> set es. quiet P k fid e"
  shows "lone ef k fid d (Suc n) (run P w (es @ timers_at ef k d n))"
proof -
  let ?s = "first_tick_after ef d"
  let ?v = "run P w es"
  from inv have k: "k < length (pollers w)" and oa: "others_apart k fid w"
    by (simp_all add: lone_def)
  from run_frame[OF k oa q]
  have fr: "pollers ?v ! k = pollers w ! k" "FETCH_RESULTS ?v fid = FETCH_RESULTS w fid"
    "others_apart k fid ?v" "k < length (pollers ?v)" by simp_all
  have fid: "p_fetchId (pollers ?v ! k) = fid" using inv fr(1) by (simp add: lone_def)
  show ?thesis
  proof (cases "n \<le> ?s")
    case True
    with inv fr have u: "p_int (pollers ?v ! k)" "p_settles (pollers ?v ! k) = []"
      "FETCH_RESULTS ?v fid = Some started" and flag: "p_timeOut (pollers ?v ! k) \<longleftrightarrow> d < n"
      by (simp_all add: lone_def)
    have fired: "((0 < n \<and> n mod 100 = 0) \<and> (p_timeOut (pollers ?v ! k) \<or> ef \<and> n = d))
        \<longleftrightarrow> n = ?s"
    proof
      assume "(0 < n \<and> n mod 100 = 0) \<and> (p_timeOut (pollers ?v ! k) \<or> ef \<and> n = d)"
      with flag have "0 < n" "n mod 100 = 0" "d < n \<or> ef \<and> d = n" by auto
      from first_tick_after_least[OF this] True show "n = ?s" by simp
    next
      assume n: "n = ?s"
      from first_tick_after_fired[OF n] flag n
      show "(0 < n \<and> n mod 100 = 0) \<and> (p_timeOut (pollers ?v ! k) \<or> ef \<and> n = d)"
        by (auto simp: first_tick_after_pos first_tick_after_mod)
    qed
    from own_timers_unsettled[OF fr(4) fid u fr(3), of P ef d n] flag True
    show ?thesis
      unfolding fired run_append lone_def by (auto split: if_splits)
  next
    case False
    with inv fr have st: "\<not> p_int (pollers ?v ! k)"
      "p_settles (pollers ?v ! k) = [Reject ''timeout'']" "FETCH_RESULTS ?v fid = None"
      by (simp_all add: lone_def)
    from own_timers_settled[OF fr(4) st(1) fr(3), of P ef d n] st fid False
    show ?thesis
      unfolding run_append lone_def by auto
  qed
qed

lemma lone_clock:
  assumes pend: "pending k fid w" and nt: "\<not> p_timeOut (pollers w ! k)"
    and oa: "others_apart k fid w"
    and q: "\<forall>t. \<forall>e \<in> set (others t). quiet P k fid e"
  shows "lone ef k fid (p_delay (pollers w ! k)) (Suc t) (clock P ef k others w t)"
proof (induction t)
  case 0
  from pend nt oa have "lone ef k fid (p_delay (pollers w ! k)) 0 w"
    by (simp add: lone_def pending_def)
  from lone_millisecond[OF this, of "others 0" P] q show ?case by simp
next
  case (Suc t)
  from lone_millisecond[OF Suc, of "others (Suc t)" P] q show ?case by simp
qed


lemma fresh_nth: "fresh fid w \<longleftrightarrow> (\<forall>j < length (pollers w). p_fetchId (pollers w ! j) \<noteq> fid)"
  unfolding fresh_def by (metis in_set_conv_nth length_map nth_map)

lemma fmFetch_issued:
  assumes f: "fmFetch P script data opts fid w = (Inr k, w0)" and fr: "fresh fid w"
  shows "pending k fid w0" and "\<not> p_timeOut (pollers w0 ! k)" and "others_apart k fid w0"
    and "p_delay (pollers w0 ! k) = timer_delay (opt_timeOut (options_arg opts))"
proof -
  note i = fmFetch_Inr[OF f]
  from i show "pending k fid w0"
    by (simp add: pending_def new_poller_simps)
  from i show "\<not> p_timeOut (pollers w0 ! k)"
    by (simp add: new_poller_simps)
  from i fr show "others_apart k fid w0"
    by (auto simp: others_apart_def fresh_nth nth_append)
  from i show "p_delay (pollers w0 ! k) = timer_delay (opt_timeOut (options_arg opts))"
    by (simp add: new_poller_simps)
qed

lemma apart_cases:
  "apart k fid e \<or> e = Tick k \<or> e = Expire k \<or> (\<exists>r. e = Callback r fid) \<or> reissues fid e"
  by (cases e) auto

lemma step_tracked:
  assumes t: "tracked k fid w" and nr: "\<not> reissues fid e"
  shows "tracked k fid (step P w e)"
proof -
  from t have k: "k < length (pollers w)" and oa: "others_apart k fid w"
    by (simp_all add: tracked_def)
  from apart_cases[of k fid e] nr
  consider "apart k fid e" | "e = Tick k" | "e = Expire k" | r where "e = Callback r fid"
    by blast
  then show ?thesis
  proof cases
    case 1
    from step_frame[OF k oa apart_quiet[OF 1], of P] t show ?thesis
      by (auto simp: tracked_def dom_def split: if_splits)
  next
    case 2
    with t show ?thesis
      unfolding tracked_def 2 step_Tick
      by (auto simp: interval_callback_cases others_apart_def nth_list_update)
  next
    case 3
    with t show ?thesis
      unfolding tracked_def 3
      by (auto simp: timeout_callback_def others_apart_def nth_list_update)
  next
    case 4
    with t show ?thesis
      unfolding tracked_def 4
      by (auto simp: Fmw_Callback_dom others_apart_def)
  qed
qed

lemma run_tracked:
  assumes "tracked k fid w" and "\<forall>e \<in> set es. \<not> reissues fid e"
  shows "tracked k fid (run P w es)"
  using assms
  by (induction es arbitrary: w) (simp_all add: run_Nil run_Cons step_tracked)



subsection \<open>The examples\<close>

lemma fmFetch_page0:
  "fmFetch engine ''GetInvoices'' JUndefined (Some opts200) id1 page0 = (Inr 0, issued)"
  by (simp add: issued_def fmFetch_def PerformScript_def page0_def Let_def)

lemma issued_simps:
  "pollers issued = [\<lparr>p_fetchId = id1, p_result = started, p_timeOut = False, p_int = True,
                       p_delay = 200, p_settles = []\<rparr>]"
  "FETCH_RESULTS issued = reg1"
  by (simp_all add: issued_def fmFetch_def PerformScript_def page0_def Let_def new_poller_def
      reg_get_def options_arg_def opts200_def timer_delay_def reg1_def)

lemma engine_parses:
  "JSON_parse engine ''started'' = None"
  "JSON_parse engine ''\"started\"'' = Some (JStr ''started'')"
  "JSON_parse engine ''42'' = Some (JNum 42)"
  "JSON_parse engine ''true'' = Some (JBool True)"
  "JSON_parse engine ''oops'' = None"
  by (simp_all add: engine_def JSON_parse_scalar_def is_digit_def plain_char_def digits_value_def)

lemma ids_differ: "id1 \<noteq> id2" "id2 \<noteq> id1"
  by (simp_all add: id1_def id2_def)

section \<open>The order of the two tests in a tick\<close>

text \<open>
  Claim C5, as stated, fails when the result that has arrived is the string
  \<^verbatim>\<open>"started"\<close>: the first test of the tick, \<^verbatim>\<open>result !== "started"\<close>, does not see a
  result, and with the timeout fired the same tick rejects the promise with the timeout.
\<close>

theorem started_result_loses_to_timeout:
  "JSON_parse engine ''\"started\"'' = Some (JStr ''started'')
   \<and> p_timeOut (pollers (run engine issued [Callback ''\"started\"'' id1, Expire 0]) ! 0)
   \<and> settled (pollers (run engine issued [Callback ''\"started\"'' id1, Expire 0, Tick 0]) ! 0)
       = Some (Reject ''timeout'')"
  by (simp add: run_Cons run_Nil issued_simps reg1_def Fmw_Callback_pending try_parse_def
      engine_parses timeout_callback_def step_Tick interval_callback_cases settled_def started_def)

text \<open>
  Claim C5, amended. Within one tick of the poller the test for a result comes before the
  test of the timeout flag: when a result has arrived and the timeout has fired by the same
  tick, \<^verbatim>\<open>resolve\<close> is called with the result before \<^verbatim>\<open>reject\<close> is called, so the
  promise is fulfilled with the payload and not rejected, provided the payload is not the
  string \<^verbatim>\<open>"started"\<close>; a payload equal to that string is not taken for a result, and the
  tick rejects with the timeout.
\<close>

theorem resolution_before_timeout:
  assumes "k < length (pollers w)" and "p_int (pollers w ! k)"
    and "p_settles (pollers w ! k) = []" and "p_timeOut (pollers w ! k)"
    and "FETCH_RESULTS w (p_fetchId (pollers w ! k)) = Some v"
  shows "p_settles (pollers (step P w (Tick k)) ! k)
           = (if v = started then [Reject ''timeout''] else [Resolve v, Reject ''timeout''])
       \<and> settled (pollers (step P w (Tick k)) ! k)
           = Some (if v = started then Reject ''timeout'' else Resolve v)"
  using assms
  by (simp add: step_Tick interval_callback_cases settled_def reg_get_Some)

theorem resolution_before_timeout_witness:
  "settled (pollers (step engine (run engine issued [Callback ''42'' id1, Expire 0]) (Tick 0)) ! 0)
     = Some (Resolve (JNum 42))"
proof -
  let ?w = "run engine issued [Callback ''42'' id1, Expire 0]"
  have w: "pollers ?w = [\<lparr>p_fetchId = id1, p_result = started, p_timeOut = True, p_int = True,
                           p_delay = 200, p_settles = []\<rparr>]"
    "FETCH_RESULTS ?w id1 = Some (JNum 42)"
    by (simp_all add: run_Cons run_Nil issued_simps reg1_def Fmw_Callback_pending try_parse_def
        engine_parses timeout_callback_def)
  from resolution_before_timeout[of 0 ?w "JNum 42" engine] w show ?thesis
    by (simp add: started_def)
qed

section \<open>A call that no result reaches\<close>

lemma lone_call:
  assumes "fmFetch P script data opts fid w = (Inr k, w0)" and "fresh fid w"
    and q: "\<forall>t. \<forall>e \<in> set (others t). quiet P k fid e"
  shows "t < first_tick_after ef (timer_delay (opt_timeOut (options_arg opts))) \<Longrightarrow>
           p_settles (pollers (clock P ef k others w0 t) ! k) = []
         \<and> FETCH_RESULTS (clock P ef k others w0 t) fid = Some started"
    and "first_tick_after ef (timer_delay (opt_timeOut (options_arg opts))) \<le> t \<Longrightarrow>
           p_settles (pollers (clock P ef k others w0 t) ! k) = [Reject ''timeout'']
         \<and> FETCH_RESULTS (clock P ef k others w0 t) fid = None"
proof -
  let ?d = "timer_delay (opt_timeOut (options_arg opts))"
  note i = fmFetch_issued[OF assms(1) assms(2)]
  have inv: "lone ef k fid ?d (Suc t) (clock P ef k others w0 t)"
    using lone_clock[OF i(1) i(2) i(3) q, of ef t] by (simp add: i(4))
  from inv show "t < first_tick_after ef ?d \<Longrightarrow>
           p_settles (pollers (clock P ef k others w0 t) ! k) = []
         \<and> FETCH_RESULTS (clock P ef k others w0 t) fid = Some started"
    by (simp add: lone_def)
  from inv show "first_tick_after ef ?d \<le> t \<Longrightarrow>
           p_settles (pollers (clock P ef k others w0 t) ! k) = [Reject ''timeout'']
         \<and> FETCH_RESULTS (clock P ef k others w0 t) fid = None"
    by (simp add: lone_def)
qed

lemma fresh_page0: "fresh fid page0"
  by (simp add: fresh_def page0_def)

lemma first_tick_after_200:
  "first_tick_after False (timer_delay (opt_timeOut (options_arg (Some opts200)))) = 300"
  "first_tick_after True (timer_delay (opt_timeOut (options_arg (Some opts200)))) = 200"
  by (simp_all add: first_tick_after_def timer_delay_def options_arg_def opts200_def)

lemma timer_delay_small: "ms < 2147483648 \<Longrightarrow> timer_delay (Some ms) = ms"
  by (simp add: timer_delay_def)

lemma fmFetch_huge:
  "fmFetch engine ''GetInvoices'' JUndefined (Some opts_huge) id1 page0 = (Inr 0, issued_huge)"
  by (simp add: issued_huge_def fmFetch_def PerformScript_def page0_def Let_def)

lemma silence_quiet: "\<forall>t. \<forall>e \<in> set (silence t). quiet P k fid e"
  by (simp add: silence_def)

text \<open>
  Claim C2, as stated, fails for a configured timeout of \<open>2\<^sup>3\<^sup>1\<close> ms or more: the
  browser's timer takes a signed 32-bit delay, so after
  \<^verbatim>\<open>fmFetch("GetInvoices", undefined, { timeOut: 2147483648 })\<close> the timeout fires at
  once, and with no result the promise is rejected at the first tick, 100 ms after the
  call, long before the configured timeout has elapsed.
\<close>

theorem huge_timeOut_rejects_at_once:
  "opt_timeOut (options_arg (Some opts_huge)) = Some 2147483648
   \<and> p_settles (pollers (clock engine False 0 silence issued_huge 99) ! 0) = []
   \<and> p_settles (pollers (clock engine False 0 silence issued_huge 100) ! 0)
       = [Reject ''timeout'']
   \<and> (100::nat) < 2147483648"
proof -
  have d: "timer_delay (opt_timeOut (options_arg (Some opts_huge))) = 0"
    by (simp add: options_arg_def opts_huge_def timer_delay_def)
  have s: "first_tick_after False 0 = 100"
    by (simp add: first_tick_after_def)
  note l = lone_call[OF fmFetch_huge fresh_page0 silence_quiet, where ef = False, unfolded d s]
  from l(1)[of 99] l(2)[of 100] show ?thesis
    by (simp add: options_arg_def opts_huge_def)
qed

text \<open>
  Claim C2, amended. Let \<^verbatim>\<open>fmFetch\<close> return a promise under an identifier that no other
  closure polls, let the timeout of the call be \<open>T\<close> ms (the caller's
  \<^verbatim>\<open>options.timeOut\<close>, or 30000 when the caller left \<^verbatim>\<open>options\<close> out) with
  \<open>T < 2\<^sup>3\<^sup>1\<close>, and let no host callback for that identifier ever arrive. Write \<open>s\<close> for
  the first tick that sees the timeout fired. Then \<open>T \<le> s \<le> T + 100\<close>; before \<open>s\<close>
  neither \<^verbatim>\<open>resolve\<close> nor \<^verbatim>\<open>reject\<close> has been called and the registry holds the
  identifier as outstanding; from \<open>s\<close> on exactly one call has been made,
  \<^verbatim>\<open>reject(new Error("timeout"))\<close>, none of \<^verbatim>\<open>resolve\<close>, and the registry no longer
  holds the identifier. This holds whichever of the two timers the engine runs first when
  both are due.
\<close>

theorem timeout_settles_once:
  assumes "fmFetch P script data opts fid w = (Inr k, w0)" and "fresh fid w"
    and "opt_timeOut (options_arg opts) = Some T" and "T < 2147483648"
    and "\<forall>t. \<forall>e \<in> set (others t). apart k fid e"
  shows "T \<le> first_tick_after ef T
       \<and> first_tick_after ef T \<le> T + 100
       \<and> (\<forall>t < first_tick_after ef T.
             p_settles (pollers (clock P ef k others w0 t) ! k) = []
           \<and> FETCH_RESULTS (clock P ef k others w0 t) fid = Some started)
       \<and> (\<forall>t \<ge> first_tick_after ef T.
             p_settles (pollers (clock P ef k others w0 t) ! k) = [Reject ''timeout'']
           \<and> fid \<notin> dom (FETCH_RESULTS (clock P ef k others w0 t)))"
proof -
  from assms(3) assms(4) have d: "timer_delay (opt_timeOut (options_arg opts)) = T"
    by (simp add: timer_delay_small)
  from assms(5) have q: "\<forall>t. \<forall>e \<in> set (others t). quiet P k fid e"
    by (simp add: apart_quiet)
  note l = lone_call[OF assms(1) assms(2) q, where ef = ef, unfolded d]
  from l show ?thesis
    by (simp add: first_tick_after_ge first_tick_after_le dom_def)
qed

theorem timeout_settles_once_witness:
  "p_settles (pollers (clock engine False 0 (calls_back ''42'' id2) issued 299) ! 0) = []
   \<and> p_settles (pollers (clock engine False 0 (calls_back ''42'' id2) issued 300) ! 0)
       = [Reject ''timeout'']
   \<and> id1 \<notin> dom (FETCH_RESULTS (clock engine False 0 (calls_back ''42'' id2) issued 300))"
proof -
  have a: "opt_timeOut (options_arg (Some opts200)) = Some 200"
    by (simp add: options_arg_def opts200_def)
  have b: "(200::nat) < 2147483648" by simp
  have c: "\<forall>t. \<forall>e \<in> set (calls_back ''42'' id2 t). apart 0 id1 e"
    by (simp add: calls_back_def ids_differ)
  have s: "first_tick_after False 200 = 300"
    by (simp add: first_tick_after_def)
  from timeout_settles_once[OF fmFetch_page0 fresh_page0 a b c, of False] show ?thesis
    unfolding s by simp
qed

section \<open>A result equal to the marker\<close>

text \<open>
  Claim C9. Let the raw result parse to the string \<^verbatim>\<open>"started"\<close>, or fail to parse and
  be the text \<^verbatim>\<open>started\<close>. Delivered for an outstanding call, it leaves the whole state
  as it was, the registry entry still the marker; the next tick settles nothing; a later
  callback for the same identifier is still written to the registry; and when every
  callback for the identifier carries such a result, one of them really delivered, the
  promise is rejected with the timeout.
\<close>

theorem marker_result_is_lost:
  assumes "fmFetch P script data opts fid w = (Inr k, w0)" and "fresh fid w"
    and "JSON_parse P raw = Some (JStr ''started'')
         \<or> (JSON_parse P raw = None \<and> raw = ''started'')"
    and "\<forall>t. \<forall>e \<in> set (others t). quiet P k fid e"
    and "Callback raw fid \<in> set (others t0)"
  shows "step P w0 (Callback raw fid) = w0
       \<and> FETCH_RESULTS (step P w0 (Callback raw fid)) fid = Some (JStr ''started'')
       \<and> p_settles (pollers (step P (step P w0 (Callback raw fid)) (Tick k)) ! k) = []
       \<and> FETCH_RESULTS (step P (step P w0 (Callback raw fid)) (Callback raw2 fid)) fid
           = Some (try_parse P raw2)
       \<and> (\<forall>t \<ge> first_tick_after ef (timer_delay (opt_timeOut (options_arg opts))).
             p_settles (pollers (clock P ef k others w0 t) ! k) = [Reject ''timeout''])"
proof -
  note i = fmFetch_issued[OF assms(1) assms(2)]
  from assms(3) have tp: "try_parse P raw = started"
    unfolding try_parse_started_iff by (simp add: started_def)
  then have same: "step P w0 (Callback raw fid) = w0"
    by (simp add: Fmw_Callback_sentinel)
  from i(1) have entry: "FETCH_RESULTS w0 fid = Some (JStr ''started'')"
    by (simp add: pending_def started_def)
  from i(1) i(2) have tick: "p_settles (pollers (step P w0 (Tick k)) ! k) = []"
    by (simp add: pending_def step_Tick interval_callback_cases)
  from i(1) have again: "FETCH_RESULTS (step P w0 (Callback raw2 fid)) fid = Some (try_parse P raw2)"
    by (simp add: pending_def Fmw_Callback_pending)
  note l = lone_call(2)[OF assms(1) assms(2) assms(4), where ef = ef]
  from same entry tick again l show ?thesis by simp
qed

theorem marker_result_is_lost_witness:
  "JSON_parse engine ''started'' = None
   \<and> step engine issued (Callback ''started'' id1) = issued
   \<and> FETCH_RESULTS (step engine (step engine issued (Callback ''started'' id1))
        (Callback ''42'' id1)) id1 = Some (JNum 42)
   \<and> p_settles (pollers (clock engine False 0 (calls_back ''started'' id1) issued 300) ! 0)
       = [Reject ''timeout'']"
proof -
  have a: "JSON_parse engine ''started'' = Some (JStr ''started'')
           \<or> (JSON_parse engine ''started'' = None \<and> ''started'' = ''started'')"
    by (simp add: engine_parses)
  have b: "\<forall>t. \<forall>e \<in> set (calls_back ''started'' id1 t). quiet engine 0 id1 e"
    by (simp add: calls_back_def try_parse_def engine_parses started_def)
  have c: "Callback ''started'' id1 \<in> set (calls_back ''started'' id1 50)"
    by (simp add: calls_back_def)
  have p: "try_parse engine ''42'' = JNum 42"
    by (simp add: try_parse_def engine_parses)
  note m = marker_result_is_lost[OF fmFetch_page0 fresh_page0 a b c, of "''42''" False,
      unfolded first_tick_after_200 p]
  from m have 1: "step engine issued (Callback ''started'' id1) = issued"
    by (rule conjunct1)
  from m have 2: "FETCH_RESULTS (step engine (step engine issued (Callback ''started'' id1))
        (Callback ''42'' id1)) id1 = Some (JNum 42)"
    by (elim conjE)
  from m have 3: "\<forall>t \<ge> 300.
      p_settles (pollers (clock engine False 0 (calls_back ''started'' id1) issued t) ! 0)
        = [Reject ''timeout'']"
    by (elim conjE)
  from 1 2 3 engine_parses(1) show ?thesis by blast
qed

section \<open>The default timeout\<close>

lemma default_timeout:
  "timer_delay (opt_timeOut (options_arg None)) = 30000"
  by (simp add: options_arg_def default_options_def timer_delay_def)

lemma fmFetch_event_only:
  "fmFetch engine ''GetInvoices'' JUndefined (Some event_only) id1 page0 = (Inr 0, issued_event_only)"
  by (simp add: issued_event_only_def fmFetch_def PerformScript_def page0_def Let_def)

text \<open>
  Claim C6. The documentation of \<^verbatim>\<open>fmFetch\<close> gives \<^verbatim>\<open>options.timeOut\<close> the default
  30000, but the default belongs to the whole parameter \<^verbatim>\<open>options\<close>: in the call
  \<^verbatim>\<open>fmFetch("GetInvoices", undefined, { eventType: "refresh" })\<close> the options are given,
  \<^verbatim>\<open>options.timeOut\<close> is \<^verbatim>\<open>undefined\<close>, the timeout is set for 0 ms, and with no result
  the promise is rejected at the first tick, 100 ms after the call and not 30000 ms. Only
  a call that leaves \<^verbatim>\<open>options\<close> out altogether gets the 30000 ms.
\<close>

theorem timeOut_left_out_is_zero:
  "timer_delay (opt_timeOut (options_arg None)) = 30000
   \<and> opt_timeOut event_only = None
   \<and> p_delay (pollers issued_event_only ! 0) = 0
   \<and> p_settles (pollers (clock engine False 0 silence issued_event_only 99) ! 0) = []
   \<and> p_settles (pollers (clock engine False 0 silence issued_event_only 100) ! 0)
       = [Reject ''timeout'']"
proof -
  have d: "timer_delay (opt_timeOut (options_arg (Some event_only))) = 0"
    by (simp add: options_arg_def event_only_def timer_delay_def)
  have s: "first_tick_after False 0 = 100"
    by (simp add: first_tick_after_def)
  have q: "\<forall>t. \<forall>e \<in> set (silence t). quiet engine 0 id1 e"
    by (simp add: silence_def)
  note i = fmFetch_issued(4)[OF fmFetch_event_only fresh_page0]
  note l = lone_call[OF fmFetch_event_only fresh_page0 q, where ef = False, unfolded d s]
  from l(1)[of 99] l(2)[of 100] i d default_timeout show ?thesis
    by (simp add: event_only_def)
qed

section \<open>The dispatcher\<close>

text \<open>
  Claim C1, as stated, fails when the first result is the text \<^verbatim>\<open>started\<close>: what the
  first dispatch stores is again the marker of an outstanding call, so the second dispatch
  for the same identifier is not dropped and its payload replaces the first.
\<close>

theorem second_dispatch_replaces_started:
  "Fmw_Callback engine ''started'' id1 reg1 id1 = Some (JStr ''started'')
   \<and> Fmw_Callback engine ''42'' id1 (Fmw_Callback engine ''started'' id1 reg1) id1
       = Some (JNum 42)
   \<and> Fmw_Callback engine ''42'' id1 (Fmw_Callback engine ''started'' id1 reg1)
       \<noteq> Fmw_Callback engine ''started'' id1 reg1"
proof -
  have tp: "try_parse engine ''started'' = started" "try_parse engine ''42'' = JNum 42"
    by (simp_all add: try_parse_def engine_parses started_def)
  have 1: "Fmw_Callback engine ''started'' id1 reg1 = reg1"
    by (simp add: Fmw_Callback_sentinel tp)
  have 2: "Fmw_Callback engine ''42'' id1 reg1 id1 = Some (JNum 42)"
    by (simp add: Fmw_Callback_pending reg1_def tp)
  have 3: "reg1 id1 = Some (JStr ''started'')"
    by (simp add: reg1_def started_def)
  have "Fmw_Callback engine ''42'' id1 reg1 \<noteq> reg1"
  proof
    assume "Fmw_Callback engine ''42'' id1 reg1 = reg1"
    with 2 3 show False by simp
  qed
  with 1 2 3 show ?thesis by simp
qed

text \<open>
  Claim C1, amended. The dispatcher changes the registry only at an identifier whose entry
  is the marker of an outstanding call, and there it stores the payload; at an identifier
  that is absent or holds anything else it changes nothing. So of two results dispatched
  for the same identifier the second is dropped and the first payload stays, provided the
  first payload is not itself the string \<^verbatim>\<open>"started"\<close>: the promise of an outstanding
  call is then fulfilled with the first payload, and a second result that comes after the
  poller has removed the entry does not bring the entry back.
\<close>

theorem dispatcher_pending_only:
  "Fmw_Callback P r1 fid R = (if R fid = Some started then R(fid \<mapsto> try_parse P r1) else R)
   \<and> (try_parse P r1 \<noteq> started \<longrightarrow>
        Fmw_Callback P r2 fid (Fmw_Callback P r1 fid R) = Fmw_Callback P r1 fid R)
   \<and> (try_parse P r1 \<noteq> started \<and> pending k fid w \<longrightarrow>
        settled (pollers (run P w [Callback r1 fid, Callback r2 fid, Tick k]) ! k)
          = Some (Resolve (try_parse P r1))
      \<and> FETCH_RESULTS (run P w [Callback r1 fid, Tick k, Callback r2 fid]) fid = None)"
proof -
  have first: "Fmw_Callback P r1 fid R
      = (if R fid = Some started then R(fid \<mapsto> try_parse P r1) else R)"
    by (simp add: Fmw_Callback_def reg_get_started_iff)
  have second: "Fmw_Callback P r2 fid (Fmw_Callback P r1 fid R) = Fmw_Callback P r1 fid R"
    if "try_parse P r1 \<noteq> started"
    using that by (simp add: Fmw_Callback_def reg_get_started_iff)
  have third: "settled (pollers (run P w [Callback r1 fid, Callback r2 fid, Tick k]) ! k)
          = Some (Resolve (try_parse P r1))
      \<and> FETCH_RESULTS (run P w [Callback r1 fid, Tick k, Callback r2 fid]) fid = None"
    if ne: "try_parse P r1 \<noteq> started" and p: "pending k fid w"
  proof -
    let ?R = "FETCH_RESULTS w"
    from p have R: "?R fid = Some started" by (simp add: pending_def)
    have two: "Fmw_Callback P r2 fid (Fmw_Callback P r1 fid ?R) = ?R(fid \<mapsto> try_parse P r1)"
      using ne R by (simp add: Fmw_Callback_pending Fmw_Callback_not_pending)
    from p ne two have a: "settled (pollers (run P w [Callback r1 fid, Callback r2 fid, Tick k]) ! k)
          = Some (Resolve (try_parse P r1))"
      by (simp add: pending_def run_Cons run_Nil step_Tick interval_callback_cases settled_def
          reg_get_def)
    from p ne R have b: "FETCH_RESULTS (run P w [Callback r1 fid, Tick k, Callback r2 fid]) fid = None"
      by (simp add: pending_def run_Cons run_Nil step_Tick interval_callback_cases
          Fmw_Callback_pending Fmw_Callback_not_pending)
    from a b show ?thesis by simp
  qed
  from first second third show ?thesis by blast
qed

theorem dispatcher_pending_only_witness:
  "try_parse engine ''42'' \<noteq> started
   \<and> pending 0 id1 issued
   \<and> Fmw_Callback engine ''42'' id1 reg1 id1 = Some (JNum 42)
   \<and> Fmw_Callback engine ''true'' id1 (Fmw_Callback engine ''42'' id1 reg1)
       = Fmw_Callback engine ''42'' id1 reg1
   \<and> Fmw_Callback engine ''42'' id2 reg1 = reg1
   \<and> settled (pollers (run engine issued [Callback ''42'' id1, Callback ''true'' id1, Tick 0]) ! 0)
       = Some (Resolve (JNum 42))
   \<and> FETCH_RESULTS (run engine issued [Callback ''42'' id1, Tick 0, Callback ''true'' id1]) id1
       = None"
proof -
  have tp: "try_parse engine ''42'' = JNum 42"
    by (simp add: try_parse_def engine_parses)
  have ne: "try_parse engine ''42'' \<noteq> started"
    by (simp add: tp started_def)
  have pend: "pending 0 id1 issued"
    by (simp add: pending_def issued_simps reg1_def)
  note d = dispatcher_pending_only[of engine "''42''" id1 reg1 "''true''" 0 issued]
  note e = dispatcher_pending_only[of engine "''42''" id2 reg1 "''true''", THEN conjunct1]
  from d ne have "Fmw_Callback engine ''true'' id1 (Fmw_Callback engine ''42'' id1 reg1)
       = Fmw_Callback engine ''42'' id1 reg1" by blast
  moreover from d have "Fmw_Callback engine ''42'' id1 reg1 id1 = Some (JNum 42)"
    by (simp add: reg1_def tp)
  moreover from e have "Fmw_Callback engine ''42'' id2 reg1 = reg1"
    by (simp add: reg1_def ids_differ)
  moreover from d ne pend
  have "settled (pollers (run engine issued [Callback ''42'' id1, Callback ''true'' id1, Tick 0]) ! 0)
       = Some (Resolve (try_parse engine ''42''))
      \<and> FETCH_RESULTS (run engine issued [Callback ''42'' id1, Tick 0, Callback ''true'' id1]) id1
       = None" by blast
  ultimately show ?thesis using ne pend tp by simp
qed

section \<open>A result that does not parse\<close>

text \<open>
  Claim C3, as stated, fails for the raw result \<^verbatim>\<open>started\<close>: it does not parse, it is
  stored unchanged, and what is stored is the marker of an outstanding call, so the next
  tick settles nothing and the promise ends rejected with the timeout.
\<close>

theorem unparseable_started_never_resolves:
  "JSON_parse engine ''started'' = None
   \<and> pending 0 id1 issued
   \<and> p_settles (pollers (run engine issued [Callback ''started'' id1, Tick 0]) ! 0) = []
   \<and> p_settles (pollers (clock engine True 0 (calls_back ''started'' id1) issued 200) ! 0)
       = [Reject ''timeout'']"
proof -
  have tp: "try_parse engine ''started'' = started"
    by (simp add: try_parse_def engine_parses started_def)
  have pend: "pending 0 id1 issued"
    by (simp add: pending_def issued_simps reg1_def)
  have tick: "p_settles (pollers (run engine issued [Callback ''started'' id1, Tick 0]) ! 0) = []"
    by (simp add: run_Cons run_Nil Fmw_Callback_sentinel tp step_Tick interval_callback_cases
        issued_simps reg1_def)
  have q: "\<forall>t. \<forall>e \<in> set (calls_back ''started'' id1 t). quiet engine 0 id1 e"
    by (simp add: calls_back_def tp)
  note l = lone_call(2)[OF fmFetch_page0 fresh_page0 q, where ef = True,
      unfolded first_tick_after_200]
  from l[of 200] tick pend engine_parses(1) show ?thesis by simp
qed

text \<open>
  Claim C3, amended. For every outstanding call and every raw result that does not parse,
  the dispatcher stores the raw string unchanged under the call's identifier; and unless
  that string is \<^verbatim>\<open>started\<close>, the next tick of the poller fulfils the promise with the
  raw string and removes the identifier from the registry, also when the timeout has
  fired by then.
\<close>

theorem unparseable_result_resolves:
  assumes "pending k fid w" and "JSON_parse P raw = None"
  shows "FETCH_RESULTS (step P w (Callback raw fid)) fid = Some (JStr raw)
       \<and> (raw \<noteq> ''started'' \<longrightarrow>
            settled (pollers (run P w [Callback raw fid, Tick k]) ! k) = Some (Resolve (JStr raw))
          \<and> fid \<notin> dom (FETCH_RESULTS (run P w [Callback raw fid, Tick k])))"
  using assms
  by (simp add: pending_def run_Cons run_Nil Fmw_Callback_pending try_parse_def step_Tick
      interval_callback_cases started_def settled_def reg_get_def)

theorem unparseable_result_resolves_witness:
  "FETCH_RESULTS (step engine issued (Callback ''oops'' id1)) id1 = Some (JStr ''oops'')
   \<and> settled (pollers (run engine issued [Callback ''oops'' id1, Tick 0]) ! 0)
       = Some (Resolve (JStr ''oops''))
   \<and> id1 \<notin> dom (FETCH_RESULTS (run engine issued [Callback ''oops'' id1, Tick 0]))"
proof -
  have pend: "pending 0 id1 issued"
    by (simp add: pending_def issued_simps reg1_def)
  have ne: "''oops'' \<noteq> ''started''" by simp
  note u = unparseable_result_resolves[OF pend engine_parses(5)]
  from u ne show ?thesis by blast
qed

section \<open>The lifetime of a registry entry\<close>

lemma fmFetch_tracked:
  assumes "fmFetch P script data opts fid w = (Inr k, w0)" and "fresh fid w"
  shows "tracked k fid w0"
  using fmFetch_issued[OF assms] by (simp add: tracked_def pending_def dom_def)

lemma step_settled_stays:
  assumes t: "tracked k fid w" and nr: "\<not> reissues fid e"
    and s: "p_settles (pollers w ! k) \<noteq> []"
  shows "p_settles (pollers (step P w e) ! k) = p_settles (pollers w ! k)"
proof -
  from t have k: "k < length (pollers w)" and oa: "others_apart k fid w"
    by (simp_all add: tracked_def)
  from t s have off: "\<not> p_int (pollers w ! k)"
    by (simp add: tracked_def)
  from apart_cases[of k fid e] nr
  consider "apart k fid e" | "e = Tick k" | "e = Expire k" | r where "e = Callback r fid"
    by blast
  then show ?thesis
  proof cases
    case 1
    from step_frame(1)[OF k oa apart_quiet[OF 1], of P] show ?thesis by simp
  next
    case 2
    with off show ?thesis by (simp add: step_Tick)
  next
    case 3
    with k show ?thesis by (simp add: timeout_callback_def)
  next
    case 4
    then show ?thesis by simp
  qed
qed

lemma run_settled_stays:
  assumes "tracked k fid w" and "\<forall>e \<in> set es. \<not> reissues fid e"
    and "p_settles (pollers w ! k) \<noteq> []"
  shows "p_settles (pollers (run P w es) ! k) = p_settles (pollers w ! k)"
  using assms
proof (induction es arbitrary: w)
  case Nil
  then show ?case by (simp add: run_Nil)
next
  case (Cons e es)
  from Cons.prems have nr: "\<not> reissues fid e" and rest: "\<forall>e \<in> set es. \<not> reissues fid e"
    by simp_all
  note same = step_settled_stays[OF Cons.prems(1) nr Cons.prems(3), of P]
  from Cons.IH[OF step_tracked[OF Cons.prems(1) nr] rest] same Cons.prems(3)
  show ?case by (simp add: run_Cons)
qed

lemma settled_None_iff: "settled p = None \<longleftrightarrow> p_settles p = []"
  by (simp add: settled_def split: list.splits)

text \<open>
  Claim C4. When \<^verbatim>\<open>fmFetch\<close> returns a promise, the registry holds the call's
  identifier as outstanding. From then on, through any timer events, host callbacks and
  further calls (a call that \<^verbatim>\<open>v4()\<close> gave the same identifier again apart), the
  registry holds the identifier exactly as long as the promise's closure has called
  neither \<^verbatim>\<open>resolve\<close> nor \<^verbatim>\<open>reject\<close>; once it has, the identifier is gone and
  stays gone. Both paths end there. On the result path, the tick that finds a value other
  than the marker under the identifier resolves with that value and removes the
  identifier. On the timeout path, the timeout callback sets the flag, and the next tick
  removes the identifier and settles the promise, with the timeout rejection when no
  result has come. A tick that finds the marker and the flag unset leaves the entry. And
  when no host callback for the identifier ever arrives, the identifier is out of the
  registry from the first tick after the delay of the timer on.
\<close>

theorem entry_lives_until_settlement:
  assumes "fmFetch P script data opts fid w = (Inr k, w0)" and "fresh fid w"
    and "\<forall>e \<in> set es. \<not> reissues fid e" and "\<forall>e \<in> set fs. \<not> reissues fid e"
  shows "FETCH_RESULTS w0 fid = Some started
       \<and> (fid \<in> dom (FETCH_RESULTS (run P w0 es))
            \<longleftrightarrow> settled (pollers (run P w0 es) ! k) = None)
       \<and> (settled (pollers (run P w0 es) ! k) \<noteq> None
            \<longrightarrow> fid \<notin> dom (FETCH_RESULTS (run P w0 (es @ fs))))
       \<and> (\<forall>v. settled (pollers (run P w0 es) ! k) = None
               \<and> FETCH_RESULTS (run P w0 es) fid = Some v \<and> v \<noteq> started
            \<longrightarrow> settled (pollers (run P w0 (es @ [Tick k])) ! k) = Some (Resolve v)
              \<and> fid \<notin> dom (FETCH_RESULTS (run P w0 (es @ [Tick k]))))
       \<and> (settled (pollers (run P w0 es) ! k) = None
            \<longrightarrow> p_timeOut (pollers (run P w0 (es @ [Expire k])) ! k)
              \<and> settled (pollers (run P w0 (es @ [Expire k, Tick k])) ! k) \<noteq> None
              \<and> fid \<notin> dom (FETCH_RESULTS (run P w0 (es @ [Expire k, Tick k])))
              \<and> (FETCH_RESULTS (run P w0 es) fid = Some started
                    \<longrightarrow> p_settles (pollers (run P w0 (es @ [Expire k, Tick k])) ! k)
                          = [Reject ''timeout'']))
       \<and> (settled (pollers (run P w0 es) ! k) = None
              \<and> FETCH_RESULTS (run P w0 es) fid = Some started
              \<and> \<not> p_timeOut (pollers (run P w0 es) ! k)
            \<longrightarrow> settled (pollers (run P w0 (es @ [Tick k])) ! k) = None
              \<and> FETCH_RESULTS (run P w0 (es @ [Tick k])) fid = Some started)
       \<and> ((\<forall>t. \<forall>e \<in> set (others t). apart k fid e)
            \<longrightarrow> (\<forall>t \<ge> first_tick_after ef (timer_delay (opt_timeOut (options_arg opts))).
                   fid \<notin> dom (FETCH_RESULTS (clock P ef k others w0 t))))"
proof -
  let ?v = "run P w0 es"
  from fmFetch_issued(1)[OF assms(1) assms(2)] have seeded: "FETCH_RESULTS w0 fid = Some started"
    by (simp add: pending_def)
  note t0 = fmFetch_tracked[OF assms(1) assms(2)]
  note t1 = run_tracked[OF t0 assms(3), of P]
  from t1 have k: "k < length (pollers ?v)" and id: "p_fetchId (pollers ?v ! k) = fid"
    by (simp_all add: tracked_def)
  from t1 have now: "fid \<in> dom (FETCH_RESULTS ?v) \<longleftrightarrow> settled (pollers ?v ! k) = None"
    by (auto simp: tracked_def settled_None_iff split: if_splits)
  have open_call: "p_int (pollers ?v ! k) \<and> p_settles (pollers ?v ! k) = []"
    if "settled (pollers ?v ! k) = None"
    using that t1 by (auto simp: tracked_def settled_None_iff split: if_splits)
  have later: "fid \<notin> dom (FETCH_RESULTS (run P w0 (es @ fs)))"
    if "settled (pollers ?v ! k) \<noteq> None"
  proof -
    from that have ne: "p_settles (pollers ?v ! k) \<noteq> []"
      by (simp add: settled_None_iff)
    from run_settled_stays[OF t1 assms(4) ne, of P] ne
    have "p_settles (pollers (run P ?v fs) ! k) \<noteq> []" by simp
    with run_tracked[OF t1 assms(4), of P] show ?thesis
      by (simp add: tracked_def run_append)
  qed
  have result_path: "settled (pollers (run P w0 (es @ [Tick k])) ! k) = Some (Resolve v)
      \<and> fid \<notin> dom (FETCH_RESULTS (run P w0 (es @ [Tick k])))"
    if "settled (pollers ?v ! k) = None" and "FETCH_RESULTS ?v fid = Some v" and "v \<noteq> started"
    for v
    using open_call[OF that(1)] that(2) that(3) k id
    by (simp add: run_append run_Cons run_Nil step_Tick interval_callback_cases settled_def
        reg_get_def)
  have timeout_path: "p_timeOut (pollers (run P w0 (es @ [Expire k])) ! k)
      \<and> settled (pollers (run P w0 (es @ [Expire k, Tick k])) ! k) \<noteq> None
      \<and> fid \<notin> dom (FETCH_RESULTS (run P w0 (es @ [Expire k, Tick k])))
      \<and> (FETCH_RESULTS ?v fid = Some started
            \<longrightarrow> p_settles (pollers (run P w0 (es @ [Expire k, Tick k])) ! k)
                  = [Reject ''timeout''])"
    if "settled (pollers ?v ! k) = None"
    using open_call[OF that] k id
    by (simp add: run_append run_Cons run_Nil step_Tick interval_callback_cases settled_def
        timeout_callback_def)
  have waiting: "settled (pollers (run P w0 (es @ [Tick k])) ! k) = None
      \<and> FETCH_RESULTS (run P w0 (es @ [Tick k])) fid = Some started"
    if "settled (pollers ?v ! k) = None" and "FETCH_RESULTS ?v fid = Some started"
      and "\<not> p_timeOut (pollers ?v ! k)"
    using open_call[OF that(1)] that(2) that(3) k id
    by (simp add: run_append run_Cons run_Nil step_Tick interval_callback_cases settled_def)
  have timed: "\<forall>t \<ge> first_tick_after ef (timer_delay (opt_timeOut (options_arg opts))).
      fid \<notin> dom (FETCH_RESULTS (clock P ef k others w0 t))"
    if "\<forall>t. \<forall>e \<in> set (others t). apart k fid e"
  proof -
    from that have q: "\<forall>t. \<forall>e \<in> set (others t). quiet P k fid e"
      by (simp add: apart_quiet)
    from lone_call(2)[OF assms(1) assms(2) q, where ef = ef] show ?thesis
      by (simp add: dom_def)
  qed
  from seeded now later result_path timeout_path waiting timed show ?thesis
    by blast
qed

theorem entry_lives_until_settlement_witness:
  "FETCH_RESULTS issued id1 = Some started
   \<and> id1 \<in> dom (FETCH_RESULTS (run engine issued [Callback ''42'' id1]))
   \<and> settled (pollers (run engine issued ([Callback ''42'' id1] @ [Tick 0])) ! 0)
       = Some (Resolve (JNum 42))
   \<and> id1 \<notin> dom (FETCH_RESULTS (run engine issued
        ([Callback ''42'' id1, Tick 0] @ [Callback ''true'' id1, Expire 0, Tick 0])))
   \<and> FETCH_RESULTS (run engine issued ([] @ [Tick 0])) id1 = Some started
   \<and> p_settles (pollers (run engine issued ([] @ [Expire 0, Tick 0])) ! 0) = [Reject ''timeout'']
   \<and> id1 \<notin> dom (FETCH_RESULTS (run engine issued ([] @ [Expire 0, Tick 0])))
   \<and> id1 \<notin> dom (FETCH_RESULTS (clock engine False 0 (calls_back ''42'' id2) issued 300))"
proof -
  have tp: "try_parse engine ''42'' = JNum 42"
    by (simp add: try_parse_def engine_parses)
  have n: "\<forall>e \<in> set []. \<not> reissues id1 e" by simp
  have a: "\<forall>e \<in> set [Callback ''42'' id1]. \<not> reissues id1 e" by simp
  have b: "\<forall>e \<in> set [Callback ''42'' id1, Tick 0]. \<not> reissues id1 e" by simp
  have c: "\<forall>e \<in> set [Callback ''true'' id1, Expire 0, Tick 0]. \<not> reissues id1 e" by simp
  have o: "\<forall>t. \<forall>e \<in> set (calls_back ''42'' id2 t). apart 0 id1 e"
    by (simp add: calls_back_def ids_differ)
  have s: "first_tick_after False (timer_delay (opt_timeOut (options_arg (Some opts200)))) = 300"
    by (rule first_tick_after_200)
  have 0: "settled (pollers (run engine issued []) ! 0) = None"
    "FETCH_RESULTS (run engine issued []) id1 = Some started"
    "\<not> p_timeOut (pollers (run engine issued []) ! 0)"
    by (simp_all add: run_Nil issued_simps settled_def reg1_def)
  have 1: "settled (pollers (run engine issued [Callback ''42'' id1]) ! 0) = None"
    "FETCH_RESULTS (run engine issued [Callback ''42'' id1]) id1 = Some (JNum 42)"
    "JNum 42 \<noteq> started"
    by (simp_all add: run_Cons run_Nil issued_simps settled_def reg1_def Fmw_Callback_pending tp
        started_def)
  have 2: "settled (pollers (run engine issued [Callback ''42'' id1, Tick 0]) ! 0) \<noteq> None"
    by (simp add: run_Cons run_Nil issued_simps reg1_def Fmw_Callback_pending tp step_Tick
        interval_callback_cases reg_get_def started_def settled_def)
  note x = entry_lives_until_settlement[OF fmFetch_page0 fresh_page0 a c,
      where ef = False and others = "calls_back ''42'' id2", unfolded s]
  note y = entry_lives_until_settlement[OF fmFetch_page0 fresh_page0 b c,
      where ef = False and others = "calls_back ''42'' id2", unfolded s]
  note z = entry_lives_until_settlement[OF fmFetch_page0 fresh_page0 n c,
      where ef = False and others = "calls_back ''42'' id2", unfolded s]
  from x 1 have "FETCH_RESULTS issued id1 = Some started"
    and "id1 \<in> dom (FETCH_RESULTS (run engine issued [Callback ''42'' id1]))"
    and "settled (pollers (run engine issued ([Callback ''42'' id1] @ [Tick 0])) ! 0)
       = Some (Resolve (JNum 42))"
    by blast+
  moreover from y 2 have "id1 \<notin> dom (FETCH_RESULTS (run engine issued
        ([Callback ''42'' id1, Tick 0] @ [Callback ''true'' id1, Expire 0, Tick 0])))"
    by blast
  moreover from z 0 have "FETCH_RESULTS (run engine issued ([] @ [Tick 0])) id1 = Some started"
    and "p_settles (pollers (run engine issued ([] @ [Expire 0, Tick 0])) ! 0) = [Reject ''timeout'']"
    and "id1 \<notin> dom (FETCH_RESULTS (run engine issued ([] @ [Expire 0, Tick 0])))"
    by blast+
  moreover from z o have "id1 \<notin> dom (FETCH_RESULTS (clock engine False 0 (calls_back ''42'' id2) issued 300))"
    by blast
  ultimately show ?thesis by blast
qed

section \<open>A host that is absent or raises\<close>







section \<open>The envelope\<close>

lemma page0_reads:
  "FileMaker page0 = Some (\<lambda>script arg. None)"
  "performed page0 = []"
  "getConfigs page0 = Some [(''Table'', JObj [(''value'', JStr ''Invoices'')]),
                            (''Field'', JObj [(''value'', JStr ''Invoices::Total'')])]"
  "getAddonUUID page0 = JStr ''A1''"
  by (simp_all add: page0_def props0_def getConfigs_def getAddonUUID_def getInitialProps_def)

lemma reads_registry:
  "getConfigs (w\<lparr>FETCH_RESULTS := R\<rparr>) = getConfigs w"
  "getAddonUUID (w\<lparr>FETCH_RESULTS := R\<rparr>) = getAddonUUID w"
  by (simp_all add: getConfigs_def getAddonUUID_def getInitialProps_def)

text \<open>
  Claim C7, as stated, fails for a caller who provides the empty string as event type:
  \<^verbatim>\<open>if (options.eventType)\<close> tests truthiness, the empty string is falsy, and the
  metadata go out without \<^verbatim>\<open>EventType\<close>.
\<close>

theorem empty_eventType_is_dropped:
  "opt_eventType empty_event = Some []
   \<and> performed (snd (fmFetch engine ''GetInvoices'' JUndefined (Some empty_event) id1 page0))
     = [(''GetInvoices'',
         JSON_stringify engine
           (JObj [(''Data'', JObj []),
                  (''Meta'',
                   JObj [(''Config'', JObj [(''Table'', JObj [(''value'', JStr ''Invoices'')]),
                                            (''Field'', JObj [(''value'', JStr ''Invoices::Total'')])]),
                         (''AddonUUID'', JStr ''A1''),
                         (''FetchId'', JStr id1),
                         (''Callback'', JStr ''Fmw_Callback'')])]))]"
  by (simp add: fmFetch_def PerformScript_def Let_def param_def Meta_def reads_registry
      page0_reads data_arg_def options_arg_def empty_event_def opt_str_def opt_obj_def
      CALLBACK_def)

text \<open>
  Claim C7, amended. Whenever \<^verbatim>\<open>window.FileMaker\<close> is present, \<^verbatim>\<open>fmFetch\<close> invokes
  \<^verbatim>\<open>PerformScript\<close> once, with the script name and the serialization of an object that
  holds the payload under \<^verbatim>\<open>Data\<close> (the empty object when the caller gave none) and,
  under \<^verbatim>\<open>Meta\<close>, the configuration, the addon identifier, the new call identifier and
  the name \<^verbatim>\<open>Fmw_Callback\<close> of the global dispatcher; \<^verbatim>\<open>Meta\<close> has the field
  \<^verbatim>\<open>EventType\<close> if and only if the caller provided a non-empty event type, and then
  with that value.
\<close>

theorem envelope_contents:
  assumes "FileMaker w = Some perform"
  shows "performed (snd (fmFetch P script data opts fid w))
       = performed w @
         [(script,
           JSON_stringify P
             (JObj [(''Data'', if data = JUndefined then JObj [] else data),
                    (''Meta'',
                     JObj ([(''Config'', opt_obj (getConfigs w)),
                            (''AddonUUID'', getAddonUUID w),
                            (''FetchId'', JStr fid),
                            (''Callback'', JStr ''Fmw_Callback'')]
                           @ (case opt_eventType (options_arg opts) of
                                None \<Rightarrow> []
                              | Some e \<Rightarrow> if e = [] then [] else [(''EventType'', JStr e)])))]))]"
  using assms
  by (simp add: fmFetch_def PerformScript_def Let_def param_def Meta_def reads_registry
      data_arg_def opt_str_def CALLBACK_def split: option.splits)

theorem envelope_contents_witness:
  "performed (snd (fmFetch engine ''GetInvoices'' (JNum 7) (Some with_event) id1 page0))
     = [(''GetInvoices'',
         JSON_stringify engine
           (JObj [(''Data'', JNum 7),
                  (''Meta'',
                   JObj [(''Config'', JObj [(''Table'', JObj [(''value'', JStr ''Invoices'')]),
                                            (''Field'', JObj [(''value'', JStr ''Invoices::Total'')])]),
                         (''AddonUUID'', JStr ''A1''),
                         (''FetchId'', JStr id1),
                         (''Callback'', JStr ''Fmw_Callback''),
                         (''EventType'', JStr ''refresh'')])]))]"
  using envelope_contents[OF page0_reads(1), of engine "''GetInvoices''" "JNum 7"
      "Some with_event" id1]
  by (simp add: page0_reads opt_obj_def options_arg_def with_event_def)

section \<open>Configuration lookup\<close>

lemma getConfig_present:
  assumes "getConfigs w = Some config" and "map_of config key = Some (JObj entry)"
    and "map_of entry ''value'' = Some (JStr s)"
  shows "getConfig w key = Inr (JStr s)"
  using assms by (simp add: getConfig_def obj_get_def)

lemma getConfig_absent:
  assumes "getConfigs w = Some config" and "map_of config key = None"
    and "key \<notin> set Object_prototype_keys"
  shows "getConfig w key = Inl (Error (''there is no config with the key: '' @ key))"
  using assms by (simp add: getConfig_def obj_get_def inherited_def)

lemma getConfig_inherited:
  assumes "getConfigs w = Some config" and "map_of config key = None"
    and "key \<in> set Object_prototype_keys"
  shows "getConfig w key = Inr JUndefined"
  using assms by (simp add: getConfig_def obj_get_def inherited_def)

text \<open>
  Claim C8. \<^verbatim>\<open>getConfig\<close> returns the value of a key that the configuration holds, and
  throws \<^verbatim>\<open>there is no config with the key\<close> for an ordinary absent key. For an absent
  key that names a member of \<^verbatim>\<open>Object.prototype\<close> it does neither: in
  \<^verbatim>\<open>getConfig("constructor")\<close> the read \<^verbatim>\<open>config["constructor"]\<close> finds the inherited
  function, which is truthy, and the call returns its \<^verbatim>\<open>.value\<close>, that is,
  \<^verbatim>\<open>undefined\<close>.
\<close>

theorem getConfig_inherited_key:
  "getConfig page0 ''Table'' = Inr (JStr ''Invoices'')
   \<and> getConfig page0 ''Total'' = Inl (Error ''there is no config with the key: Total'')
   \<and> map_of [(''Table'', JObj [(''value'', JStr ''Invoices'')]),
              (''Field'', JObj [(''value'', JStr ''Invoices::Total'')])] ''constructor'' = None
   \<and> getConfig page0 ''constructor'' = Inr JUndefined"
  by (simp add: getConfig_def page0_reads obj_get_def inherited_def Object_prototype_keys_def)

end
